theory Spec2Isabelle
  imports Complex_Main "HOL-Library.Log_Nat"
begin

section \<open>Values and errors\<close>

text \<open>
  The program is dynamically typed: a field of a FIT record, a dataclass attribute and a
  table cell all hold an arbitrary Python object. The values that occur are \<open>None\<close>,
  integers, floats, strings and \<open>datetime\<close> objects. A finite IEEE double is represented
  by the rational number it denotes; a datetime by its offset from the epoch, as
  \<open>PDatetime\<close> when it is naive (without \<open>tzinfo\<close>, as fitparse returns it) and as
  \<open>PDatetimeTz\<close> when it is timezone-aware.
  Inside a table, \<open>PNone\<close> stands for every value that \<open>isna\<close> reports as missing
  (\<open>None\<close>, \<open>NaN\<close>, \<open>NaT\<close>).
\<close>

datatype pyval = PNone | PInt int | PFloat rat | PStr string | PDatetime int | PDatetimeTz int

text \<open>The exceptions that the modelled code paths can raise.\<close>

datatype error = TypeError | KeyError | ValueError | OverflowError | ZeroDivisionError
  | FitParseError | OSError

section \<open>The Point dataclass\<close>

text \<open>
  \<open>@dataclass class Point\<close> with nine attributes and no defaults. The annotations are
  not enforced at run time, so every attribute holds a \<open>pyval\<close>.
\<close>

record Point =
  cadence :: pyval
  distance :: pyval
  enhanced_speed :: pyval
  heart_rate :: pyval
  position_lat :: pyval
  position_long :: pyval
  speed :: pyval
  timestamp :: pyval
  unknown_88 :: pyval

definition point_fields :: "string list" where
  "point_fields = [''cadence'', ''distance'', ''enhanced_speed'', ''heart_rate'',
     ''position_lat'', ''position_long'', ''speed'', ''timestamp'', ''unknown_88'']"

text \<open>
  The dictionary returned by \<open>record.get_values()\<close>, as the list of its items in
  insertion order.
\<close>

type_synonym raw_values = "(string \<times> pyval) list"

definition keys :: "raw_values \<Rightarrow> string list" where
  "keys d = map fst d"

definition lookup :: "raw_values \<Rightarrow> string \<Rightarrow> pyval" where
  "lookup d k = (case map_of d k of Some v \<Rightarrow> v | None \<Rightarrow> PNone)"

text \<open>
  \<open>Point(**d)\<close>: the generated \<open>__init__\<close> takes exactly the nine attributes as
  parameters. A key that is no parameter raises \<open>TypeError\<close> (unexpected keyword
  argument), and so does a parameter without a key (missing required argument).
  Otherwise each attribute is bound to the value under its name.
  The \<open>lookup\<close> default is never reached: every attribute has a key in the last branch.
\<close>

definition Point_init :: "raw_values \<Rightarrow> error + Point" where
  "Point_init d =
     (if \<not> list_all (\<lambda>k. k \<in> set point_fields) (keys d) then Inl TypeError
      else if \<not> list_all (\<lambda>f. f \<in> set (keys d)) point_fields then Inl TypeError
      else Inr \<lparr>cadence = lookup d ''cadence'', distance = lookup d ''distance'',
                enhanced_speed = lookup d ''enhanced_speed'',
                heart_rate = lookup d ''heart_rate'',
                position_lat = lookup d ''position_lat'',
                position_long = lookup d ''position_long'',
                speed = lookup d ''speed'', timestamp = lookup d ''timestamp'',
                unknown_88 = lookup d ''unknown_88''\<rparr>)"

section \<open>Record Extractor\<close>

text \<open>
  One pass through the body of the \<open>while True\<close> loop evaluates
  \<open>next(records)\<close> and then \<open>record.get_values()\<close>. Either this gives a
  dictionary (\<open>Rec\<close>), or an exception other than \<open>StopIteration\<close> is raised
  (\<open>Exc\<close>). The record stream of a container is the finite list of these outcomes;
  its end is the \<open>StopIteration\<close> of the iterator.
\<close>

datatype event = Rec raw_values | Exc

text \<open>
  The loop of \<open>read_fit_file\<close>, with the list \<open>points\<close> as accumulator:
  \<open>StopIteration\<close> leaves the loop, a constructed Point is appended, and any other
  exception (from the iterator or from the constructor) is swallowed.
\<close>

fun read_loop :: "event list \<Rightarrow> Point list \<Rightarrow> Point list" where
  "read_loop [] points = points"
| "read_loop (Exc # records) points = read_loop records points"
| "read_loop (Rec d # records) points =
     (case Point_init d of
        Inr p \<Rightarrow> read_loop records (points @ [p])
      | Inl e \<Rightarrow> read_loop records points)"

text \<open>
  \<open>fitparse.FitFile(fit_file)\<close> is a parameter: for a path it either raises or gives
  the container, whose \<open>get_messages("record")\<close> stream is the event list. An exception
  of the constructor is outside the \<open>try\<close> block and propagates.
\<close>

definition read_fit_file :: "(string \<Rightarrow> error + event list) \<Rightarrow> string \<Rightarrow> error + Point list" where
  "read_fit_file FitFile fit_file =
     (case FitFile fit_file of
        Inl e \<Rightarrow> Inl e
      | Inr records \<Rightarrow> Inr (read_loop records []))"

text \<open>
  \<open>get_messages\<close> of fitparse is a generator function. The container holds its record
  messages one after the other; a message that decodes is yielded with its field
  values, and a message that does not decode (corrupt or truncated bytes) makes the
  generator raise. An exception leaving a Python generator finishes it: every later
  \<open>next\<close> raises \<open>StopIteration\<close>. So the outcomes that the loop sees end with the
  first exception.
\<close>

datatype message = Decoded raw_values | Undecodable

fun get_messages :: "message list \<Rightarrow> event list" where
  "get_messages [] = []"
| "get_messages (Decoded d # ms) = Rec d # get_messages ms"
| "get_messages (Undecodable # ms) = [Exc]"

text \<open>
  A well-formed record is one that carries exactly the nine field names; everything else
  in the stream is malformed. \<open>point_of\<close> reads the nine values off a record.
\<close>

definition well_formed :: "event \<Rightarrow> bool" where
  "well_formed ev = (case ev of Rec d \<Rightarrow> set (keys d) = set point_fields | Exc \<Rightarrow> False)"

definition point_of :: "event \<Rightarrow> Point" where
  "point_of ev = (case ev of
      Rec d \<Rightarrow> \<lparr>cadence = lookup d ''cadence'', distance = lookup d ''distance'',
                enhanced_speed = lookup d ''enhanced_speed'',
                heart_rate = lookup d ''heart_rate'',
                position_lat = lookup d ''position_lat'',
                position_long = lookup d ''position_long'',
                speed = lookup d ''speed'', timestamp = lookup d ''timestamp'',
                unknown_88 = lookup d ''unknown_88''\<rparr>
    | Exc \<Rightarrow> \<lparr>cadence = PNone, distance = PNone, enhanced_speed = PNone, heart_rate = PNone,
                position_lat = PNone, position_long = PNone, speed = PNone,
                timestamp = PNone, unknown_88 = PNone\<rparr>)"

section \<open>IEEE double arithmetic\<close>

text \<open>
  Python floats and NumPy \<open>float64\<close> are IEEE 754 binary64 numbers. Every arithmetic
  operation returns the exact result rounded to the nearest double, ties to the even
  significand. \<open>binade x\<close> is the exponent \<open>e\<close> with \<open>2^e \<le> |x| < 2^(e+1)\<close>,
  and a double in that binade is a multiple of \<open>2^(e-52)\<close>; below \<open>2^(-1022)\<close> the
  spacing stays \<open>2^(-1074)\<close> (subnormal numbers). \<open>fl\<close> does not model overflow
  to infinity: the callers check the range where the source can leave it.
\<close>

definition round_half_even :: "rat \<Rightarrow> int" where
  "round_half_even x =
     (let f = \<lfloor>x\<rfloor>; r = x - of_int f
      in if r < 1 / 2 then f else if 1 / 2 < r then f + 1 else if even f then f else f + 1)"

definition binade :: "rat \<Rightarrow> int" where
  "binade x =
     (let (p, q) = quotient_of \<bar>x\<bar>; k = bitlen p - bitlen q
      in if 2 powi k \<le> \<bar>x\<bar> then k else k - 1)"

definition fl :: "rat \<Rightarrow> rat" where
  "fl x =
     (if x = 0 then 0
      else let q = 2 powi (max (binade x) (- 1022) - 52)
           in of_int (round_half_even (x / q)) * q)"

definition max_double :: rat where
  "max_double = (2 ^ 53 - 1) * 2 ^ 971"

text \<open>
  The conversion of a Python \<open>int\<close> to \<open>float\<close>, as the operator \<open>/\<close> applies it
  to an integer operand: correctly rounded, \<open>OverflowError\<close> beyond the doubles.
\<close>

definition int_to_float :: "int \<Rightarrow> error + rat" where
  "int_to_float n =
     (if max_double < \<bar>fl (of_int n)\<bar> then Inl OverflowError else Inr (fl (of_int n)))"

text \<open>
  \<open>v / y\<close> for a float \<open>y\<close>. Integers and floats divide; \<open>None\<close>, strings and
  datetimes raise \<open>TypeError\<close>.
\<close>

fun float_truediv :: "pyval \<Rightarrow> rat \<Rightarrow> error + pyval" where
  "float_truediv (PInt n) y =
     (if y = 0 then Inl ZeroDivisionError
      else case int_to_float n of
             Inl e \<Rightarrow> Inl e
           | Inr x \<Rightarrow> Inr (PFloat (fl (x / y))))"
| "float_truediv (PFloat x) y =
     (if y = 0 then Inl ZeroDivisionError else Inr (PFloat (fl (x / y))))"
| "float_truediv PNone y = Inl TypeError"
| "float_truediv (PStr s) y = Inl TypeError"
| "float_truediv (PDatetime t) y = Inl TypeError"
| "float_truediv (PDatetimeTz t) y = Inl TypeError"

text \<open>
  \<open>series / y\<close> for a pandas Series: the division is applied to every element that is
  not missing, a missing element stays missing, and an element that cannot be divided
  raises for the whole Series. (The only divisor of the program is a nonzero constant.)
\<close>

fun series_truediv :: "pyval list \<Rightarrow> rat \<Rightarrow> error + pyval list" where
  "series_truediv [] y = Inr []"
| "series_truediv (v # vs) y =
     (case (if v = PNone then Inr PNone else float_truediv v y) of
        Inl e \<Rightarrow> Inl e
      | Inr w \<Rightarrow>
          (case series_truediv vs y of
             Inl e \<Rightarrow> Inl e
           | Inr ws \<Rightarrow> Inr (w # ws)))"

text \<open>
  \<open>semicircle_to_degrees\<close> is duck-typed: \<open>points_to_pdf\<close> passes a Series, and the
  function is equally defined on a single number.
\<close>

datatype operand = Scalar pyval | Series "pyval list"

fun truediv :: "operand \<Rightarrow> rat \<Rightarrow> error + operand" where
  "truediv (Scalar v) y = map_sum id Scalar (float_truediv v y)"
| "truediv (Series vs) y = map_sum id Series (series_truediv vs y)"

text \<open>
  \<open>(2**32) / 360\<close>: the true division of two integers, which Python rounds correctly
  to a double.
\<close>

definition semicircles_per_degree :: rat where
  "semicircles_per_degree = fl (2 ^ 32 / 360)"

text \<open>\<open>val / ((2**32) / 360)\<close>.\<close>

definition semicircle_to_degrees :: "operand \<Rightarrow> error + operand" where
  "semicircle_to_degrees val = truediv val semicircles_per_degree"

section \<open>Tables\<close>

text \<open>
  A pandas DataFrame: the column labels in order, and the rows in index order. A row
  gives the cell under each column label; it is only ever read at labels of
  \<open>columns\<close>.
\<close>

type_synonym row = "string \<Rightarrow> pyval"

record DataFrame =
  columns :: "string list"
  rows :: "row list"

definition asdict :: "Point \<Rightarrow> row" where
  "asdict p = (\<lambda>c.
     if c = ''cadence'' then cadence p
     else if c = ''distance'' then distance p
     else if c = ''enhanced_speed'' then enhanced_speed p
     else if c = ''heart_rate'' then heart_rate p
     else if c = ''position_lat'' then position_lat p
     else if c = ''position_long'' then position_long p
     else if c = ''speed'' then speed p
     else if c = ''timestamp'' then timestamp p
     else if c = ''unknown_88'' then unknown_88 p
     else PNone)"

text \<open>
  The type inference that the DataFrame constructor applies to each column
  (\<open>maybe_convert_objects\<close>). A column of numbers in which an integer stands beside a
  missing value or a float is stored as \<open>float64\<close>: its integers are converted to
  doubles (and \<open>None\<close> becomes \<open>NaN\<close>). Every other column keeps its cells: a column
  of integers only (\<open>int64\<close>), a column of datetimes, a column of other objects.
  FIT values are at most 64 bits wide; for a column with a larger integer the inference
  of pandas depends on the order of the values, and the column is left as it is here.
\<close>

definition is_int :: "pyval \<Rightarrow> bool" where
  "is_int v = (case v of PInt n \<Rightarrow> True | _ \<Rightarrow> False)"

definition is_float :: "pyval \<Rightarrow> bool" where
  "is_float v = (case v of PFloat x \<Rightarrow> True | _ \<Rightarrow> False)"

definition fits_int64 :: "pyval \<Rightarrow> bool" where
  "fits_int64 v = (case v of PInt n \<Rightarrow> - (2 ^ 63) \<le> n \<and> n < 2 ^ 63 | _ \<Rightarrow> True)"

definition to_float64 :: "pyval \<Rightarrow> pyval" where
  "to_float64 v = (case v of PInt n \<Rightarrow> PFloat (fl (of_int n)) | _ \<Rightarrow> v)"

definition maybe_convert_objects :: "pyval list \<Rightarrow> pyval list" where
  "maybe_convert_objects vals =
     (if list_all (\<lambda>v. v = PNone \<or> is_int v \<or> is_float v) vals
         \<and> list_ex is_int vals
         \<and> (list_ex is_float vals \<or> list_ex (\<lambda>v. v = PNone) vals)
         \<and> list_all fits_int64 vals
      then map to_float64 vals
      else vals)"

text \<open>
  \<open>pd.DataFrame(points)\<close> for a list of dataclass instances: one row per instance and
  one column per attribute, holding the attribute's values as the type inference leaves
  them. For the empty list there is nothing to take the columns from: the frame has no
  columns and no rows.
\<close>

definition column :: "Point list \<Rightarrow> string \<Rightarrow> pyval list" where
  "column points c = maybe_convert_objects (map (\<lambda>p. asdict p c) points)"

definition pd_DataFrame :: "Point list \<Rightarrow> DataFrame" where
  "pd_DataFrame points =
     (case points of
        [] \<Rightarrow> \<lparr>columns = [], rows = []\<rparr>
      | p # ps \<Rightarrow>
          \<lparr>columns = point_fields,
           rows = map (\<lambda>i. (\<lambda>c. column points c ! i)) [0..<length points]\<rparr>)"

text \<open>\<open>df[c]\<close>: the column as a Series, \<open>KeyError\<close> for a label that is no column.\<close>

definition getitem :: "DataFrame \<Rightarrow> string \<Rightarrow> error + pyval list" where
  "getitem df c =
     (if c \<in> set (columns df) then Inr (map (\<lambda>r. r c) (rows df)) else Inl KeyError)"

text \<open>
  \<open>df[c] = val\<close>: an existing column is replaced in place, a new one is added last.
  A Series is assigned row by row (in this program it is always computed from a column
  of the same frame); a scalar fills the column.
\<close>

fun setitem :: "DataFrame \<Rightarrow> string \<Rightarrow> operand \<Rightarrow> DataFrame" where
  "setitem df c (Series vals) =
     \<lparr>columns = (if c \<in> set (columns df) then columns df else columns df @ [c]),
      rows = map (\<lambda>(r, v). r(c := v)) (zip (rows df) vals)\<rparr>"
| "setitem df c (Scalar v) =
     \<lparr>columns = (if c \<in> set (columns df) then columns df else columns df @ [c]),
      rows = map (\<lambda>r. r(c := v)) (rows df)\<rparr>"

text \<open>
  \<open>pd.to_datetime(series, errors="coerce")\<close>. A Series that holds both a naive and a
  timezone-aware datetime raises \<open>ValueError\<close>, whatever \<open>errors\<close> says. Otherwise
  every element becomes a timestamp or the missing value \<open>NaT\<close>, and the timestamps
  are timezone-aware if the Series holds an aware datetime. Which elements pandas can
  interpret is a parameter, \<open>coerce\<close>: its result for element \<open>i\<close> of the Series, which
  may depend on the other elements (pandas infers a format from the Series).
\<close>

definition is_naive :: "pyval \<Rightarrow> bool" where
  "is_naive v = (case v of PDatetime t \<Rightarrow> True | _ \<Rightarrow> False)"

definition is_aware :: "pyval \<Rightarrow> bool" where
  "is_aware v = (case v of PDatetimeTz t \<Rightarrow> True | _ \<Rightarrow> False)"

definition mixes_timezones :: "pyval list \<Rightarrow> bool" where
  "mixes_timezones vals = (list_ex is_naive vals \<and> list_ex is_aware vals)"

definition coerced :: "(pyval list \<Rightarrow> nat \<Rightarrow> int option) \<Rightarrow> pyval list \<Rightarrow> nat \<Rightarrow> pyval" where
  "coerced coerce vals i =
     (case coerce vals i of
        Some t \<Rightarrow> if list_ex is_aware vals then PDatetimeTz t else PDatetime t
      | None \<Rightarrow> PNone)"

definition to_datetime :: "(pyval list \<Rightarrow> nat \<Rightarrow> int option) \<Rightarrow> pyval list \<Rightarrow> error + pyval list" where
  "to_datetime coerce vals =
     (if mixes_timezones vals then Inl ValueError
      else Inr (map (coerced coerce vals) [0..<length vals]))"

section \<open>Coordinate Normalizer\<close>

definition points_to_pdf :: "(pyval list \<Rightarrow> nat \<Rightarrow> int option) \<Rightarrow> Point list \<Rightarrow> error + DataFrame" where
  "points_to_pdf coerce points =
     (let df = pd_DataFrame points in
      case getitem df ''timestamp'' of
        Inl e \<Rightarrow> Inl e
      | Inr ts \<Rightarrow>
     (case to_datetime coerce ts of
        Inl e \<Rightarrow> Inl e
      | Inr ts' \<Rightarrow>
     (let df = setitem df ''timestamp'' (Series ts') in
      case getitem df ''position_lat'' of
        Inl e \<Rightarrow> Inl e
      | Inr lat \<Rightarrow>
     (case semicircle_to_degrees (Series lat) of
        Inl e \<Rightarrow> Inl e
      | Inr latitude \<Rightarrow>
     (let df = setitem df ''latitude'' latitude in
      case getitem df ''position_long'' of
        Inl e \<Rightarrow> Inl e
      | Inr long \<Rightarrow>
     (case semicircle_to_degrees (Series long) of
        Inl e \<Rightarrow> Inl e
      | Inr longitude \<Rightarrow> Inr (setitem df ''longitude'' longitude)))))))"

section \<open>Track Serializer\<close>

record GPXTrackPoint =
  latitude :: pyval
  longitude :: pyval
  time :: pyval

record GPXTrackSegment =
  points :: "GPXTrackPoint list"

record GPXTrack =
  segments :: "GPXTrackSegment list"

record GPX =
  tracks :: "GPXTrack list"

definition isna :: "pyval \<Rightarrow> bool" where
  "isna v = (v = PNone)"

text \<open>
  \<open>df.dropna(axis=0, subset=...)\<close>: \<open>KeyError\<close> when a label of the subset is no
  column; otherwise a new frame with the rows that have no missing value under the
  subset, in their order.
\<close>

definition dropna :: "DataFrame \<Rightarrow> string list \<Rightarrow> error + DataFrame" where
  "dropna df labels =
     (if list_all (\<lambda>c. c \<in> set (columns df)) labels
      then Inr (df\<lparr>rows := filter (\<lambda>r. list_all (\<lambda>c. \<not> isna (r c)) labels) (rows df)\<rparr>)
      else Inl KeyError)"

text \<open>
  \<open>pd.Timestamp(v)\<close>: a timestamp is returned as it is and a missing value gives
  \<open>NaT\<close>; for any other value the constructor parses, which is the parameter \<open>parse\<close>,
  and raises \<open>ValueError\<close> where that fails.
\<close>

definition pd_Timestamp :: "(pyval \<Rightarrow> int option) \<Rightarrow> pyval \<Rightarrow> error + pyval" where
  "pd_Timestamp parse v =
     (case v of
        PNone \<Rightarrow> Inr PNone
      | PDatetime t \<Rightarrow> Inr (PDatetime t)
      | PDatetimeTz t \<Rightarrow> Inr (PDatetimeTz t)
      | _ \<Rightarrow> (case parse v of Some t \<Rightarrow> Inr (PDatetime t) | None \<Rightarrow> Inl ValueError))"

text \<open>
  The loop over \<open>df.iterrows()\<close>: one track point per row, appended to the segment.
\<close>

fun add_points :: "(pyval \<Rightarrow> int option) \<Rightarrow> row list \<Rightarrow> GPXTrackSegment \<Rightarrow> error + GPXTrackSegment" where
  "add_points parse [] gpx_segment = Inr gpx_segment"
| "add_points parse (row # rest) gpx_segment =
     (case pd_Timestamp parse (row ''timestamp'') of
        Inl e \<Rightarrow> Inl e
      | Inr t \<Rightarrow>
          add_points parse rest
            (gpx_segment\<lparr>points := points gpx_segment @
               [\<lparr>latitude = row ''latitude'', longitude = row ''longitude'', time = t\<rparr>]\<rparr>))"

text \<open>
  \<open>df.copy()\<close> gives an equal frame. The track and the segment are appended to the
  document before the loop and filled afterwards through the same objects, so the
  document returned holds the segment as the loop leaves it.
\<close>

definition copy :: "DataFrame \<Rightarrow> DataFrame" where
  "copy df = df"

definition pdf_to_gpx :: "(pyval \<Rightarrow> int option) \<Rightarrow> DataFrame \<Rightarrow> error + GPX" where
  "pdf_to_gpx parse df =
     (case dropna (copy df) [''latitude'', ''longitude'', ''timestamp''] of
        Inl e \<Rightarrow> Inl e
      | Inr df' \<Rightarrow>
          (case add_points parse (rows df') \<lparr>points = []\<rparr> of
             Inl e \<Rightarrow> Inl e
           | Inr gpx_segment \<Rightarrow> Inr \<lparr>tracks = [\<lparr>segments = [gpx_segment]\<rparr>]\<rparr>))"

text \<open>
  The same function over an explicit object store, for what happens to the frame the
  caller passed: a variable holds the address of a frame, \<open>df.copy()\<close> and
  \<open>dropna\<close> (without \<open>inplace\<close>) each allocate a new frame, and the assignment
  rebinds the local name \<open>df\<close> only.
\<close>

type_synonym heap = "DataFrame list"

definition heap_copy :: "heap \<Rightarrow> nat \<Rightarrow> nat \<times> heap" where
  "heap_copy h a = (length h, h @ [copy (h ! a)])"

definition heap_dropna :: "heap \<Rightarrow> nat \<Rightarrow> string list \<Rightarrow> (error + nat) \<times> heap" where
  "heap_dropna h a labels =
     (case dropna (h ! a) labels of
        Inl e \<Rightarrow> (Inl e, h)
      | Inr d \<Rightarrow> (Inr (length h), h @ [d]))"

definition pdf_to_gpx_heap :: "(pyval \<Rightarrow> int option) \<Rightarrow> heap \<Rightarrow> nat \<Rightarrow> (error + GPX) \<times> heap" where
  "pdf_to_gpx_heap parse h df =
     (let (c, h1) = heap_copy h df;
          (r, h2) = heap_dropna h1 c [''latitude'', ''longitude'', ''timestamp'']
      in case r of
           Inl e \<Rightarrow> (Inl e, h2)
         | Inr df' \<Rightarrow>
             (case add_points parse (rows (h2 ! df')) \<lparr>points = []\<rparr> of
                Inl e \<Rightarrow> (Inl e, h2)
              | Inr gpx_segment \<Rightarrow> (Inr \<lparr>tracks = [\<lparr>segments = [gpx_segment]\<rparr>]\<rparr>, h2)))"

section \<open>The pipeline\<close>

text \<open>
  The world \<open>main\<close> runs in: what \<open>fitparse.FitFile\<close> gives for each path, which
  paths \<open>open(path, "w")\<close> can open, and the text files written so far. The text
  written is \<open>gpx.to_xml()\<close>; a file is represented by the document it serialises.
  \<open>Namespace\<close> is the result of \<open>parse_args\<close>.
\<close>

record world =
  containers :: "string \<Rightarrow> error + event list"
  writable :: "string \<Rightarrow> bool"
  files :: "string \<Rightarrow> GPX option"

record Namespace =
  fit :: string
  gpx :: string

definition main :: "(pyval list \<Rightarrow> nat \<Rightarrow> int option) \<Rightarrow> (pyval \<Rightarrow> int option) \<Rightarrow> world \<Rightarrow> Namespace
    \<Rightarrow> (error + unit) \<times> world" where
  "main coerce parse w args =
     (case read_fit_file (containers w) (fit args) of
        Inl e \<Rightarrow> (Inl e, w)
      | Inr ps \<Rightarrow>
     (case points_to_pdf coerce ps of
        Inl e \<Rightarrow> (Inl e, w)
      | Inr df \<Rightarrow>
     (case pdf_to_gpx parse df of
        Inl e \<Rightarrow> (Inl e, w)
      | Inr doc \<Rightarrow>
          if writable w (gpx args)
          then (Inr (), w\<lparr>files := (files w)(gpx args \<mapsto> doc)\<rparr>)
          else (Inl OSError, w))))"

section \<open>Notions of the specification\<close>

text \<open>
  A row is complete when none of its latitude, longitude and timestamp is missing; a
  complete row contributes the track point of its three values, any other row nothing.
\<close>

definition complete_row :: "row \<Rightarrow> bool" where
  "complete_row r = (r ''latitude'' \<noteq> PNone \<and> r ''longitude'' \<noteq> PNone \<and> r ''timestamp'' \<noteq> PNone)"

definition track_point :: "row \<Rightarrow> GPXTrackPoint" where
  "track_point r =
     \<lparr>latitude = r ''latitude'', longitude = r ''longitude'', time = r ''timestamp''\<rparr>"

definition contribution :: "row \<Rightarrow> GPXTrackPoint list" where
  "contribution r = (if complete_row r then [track_point r] else [])"

definition all_points :: "GPX \<Rightarrow> GPXTrackPoint list" where
  "all_points doc = concat (map points (concat (map segments (tracks doc))))"

text \<open>
  A Normalized Table has the three columns the serializer reads, and its timestamp
  column holds timestamps and missing values only, as \<open>to_datetime\<close> leaves it.
\<close>

definition datetime_or_null :: "pyval \<Rightarrow> bool" where
  "datetime_or_null v =
     (case v of PNone \<Rightarrow> True | PDatetime t \<Rightarrow> True | PDatetimeTz t \<Rightarrow> True | _ \<Rightarrow> False)"

definition normalized :: "DataFrame \<Rightarrow> bool" where
  "normalized df =
     (list_all (\<lambda>c. c \<in> set (columns df)) [''latitude'', ''longitude'', ''timestamp'']
      \<and> list_all (\<lambda>r. datetime_or_null (r ''timestamp'')) (rows df))"

text \<open>
  The position fields of a Point Record are integers or missing; a float is accepted
  as well. (An integer beyond the doubles cannot be divided by a float.)
\<close>

definition numeric_or_null :: "pyval \<Rightarrow> bool" where
  "numeric_or_null v =
     (case v of
        PNone \<Rightarrow> True
      | PInt n \<Rightarrow> \<bar>fl (of_int n)\<bar> \<le> max_double
      | PFloat x \<Rightarrow> True
      | _ \<Rightarrow> False)"

definition positioned :: "Point \<Rightarrow> bool" where
  "positioned p = (numeric_or_null (position_lat p) \<and> numeric_or_null (position_long p))"

text \<open>
  The row that the normalizer is to produce for the Point at index \<open>i\<close>: the cells
  of the Point's row in the table, with the timestamp as coerced and with the two
  positions of the Point converted to degrees, a missing position staying missing.
\<close>

definition degrees :: "pyval \<Rightarrow> pyval" where
  "degrees v =
     (case v of
        PInt n \<Rightarrow> PFloat (fl (fl (of_int n) / semicircles_per_degree))
      | PFloat x \<Rightarrow> PFloat (fl (x / semicircles_per_degree))
      | _ \<Rightarrow> PNone)"

definition normalized_row :: "(pyval list \<Rightarrow> nat \<Rightarrow> int option) \<Rightarrow> Point list \<Rightarrow> nat \<Rightarrow> row" where
  "normalized_row coerce ps i =
     (\<lambda>c. column ps c ! i)
       (''timestamp'' := coerced coerce (column ps ''timestamp'') i,
        ''latitude'' := degrees (position_lat (ps ! i)),
        ''longitude'' := degrees (position_long (ps ! i)))"

section \<open>Sample records\<close>

text \<open>
  Three raw records as \<open>get_values()\<close> may return them: \<open>sample_A\<close> carries the nine
  fields with a position and a time, \<open>sample_B\<close> carries other fields, and
  \<open>sample_C\<close> carries the nine fields (in another order) with a time that is a string.
\<close>

definition sample_A :: raw_values where
  "sample_A = [(''cadence'', PInt 80), (''distance'', PFloat 12), (''enhanced_speed'', PFloat 3),
     (''heart_rate'', PInt 140), (''position_lat'', PInt 536870912),
     (''position_long'', PInt (- 1073741824)), (''speed'', PFloat 3),
     (''timestamp'', PDatetime 1000), (''unknown_88'', PInt 100)]"

definition sample_B :: raw_values where
  "sample_B = [(''cadence'', PInt 80), (''timestamp'', PDatetime 1001), (''altitude'', PInt 5)]"

definition sample_C :: raw_values where
  "sample_C = [(''timestamp'', PStr ''garbage''), (''cadence'', PNone), (''distance'', PNone),
     (''enhanced_speed'', PNone), (''heart_rate'', PNone), (''position_lat'', PInt 1),
     (''position_long'', PInt 2), (''speed'', PNone), (''unknown_88'', PNone)]"

text \<open>A record with the nine fields whose latitude is missing.\<close>

definition sample_D :: raw_values where
  "sample_D = [(''cadence'', PInt 81), (''distance'', PFloat 13), (''enhanced_speed'', PFloat 3),
     (''heart_rate'', PInt 141), (''position_lat'', PNone), (''position_long'', PInt 5),
     (''speed'', PFloat 3), (''timestamp'', PDatetime 1004), (''unknown_88'', PInt 100)]"


text \<open>
  A table of four rows, of which the second has no timestamp and the third no latitude.
\<close>

definition sample_table :: DataFrame where
  "sample_table =
     \<lparr>columns = point_fields @ [''latitude'', ''longitude''],
      rows = [(\<lambda>c. PNone)(''latitude'' := PFloat 45, ''longitude'' := PFloat (- 90),
                ''timestamp'' := PDatetime 1000),
              (\<lambda>c. PNone)(''latitude'' := PFloat 46, ''longitude'' := PFloat (- 91)),
              (\<lambda>c. PNone)(''longitude'' := PFloat (- 92), ''timestamp'' := PDatetime 1002),
              (\<lambda>c. PNone)(''latitude'' := PFloat 47, ''longitude'' := PFloat (- 93),
                ''timestamp'' := PDatetime 1003)]\<rparr>"

text \<open>
  A coercion that accepts datetime values only, a world in which the input path opens
  as a container with the given record stream, and the command-line arguments.
\<close>

definition sample_coerce :: "pyval list \<Rightarrow> nat \<Rightarrow> int option" where
  "sample_coerce vals i =
     (case vals ! i of PDatetime t \<Rightarrow> Some t | PDatetimeTz t \<Rightarrow> Some t | _ \<Rightarrow> None)"

definition sample_world :: "event list \<Rightarrow> world" where
  "sample_world records = \<lparr>containers = (\<lambda>f. Inr records), writable = (\<lambda>f. True), files = Map.empty\<rparr>"

definition sample_args :: Namespace where
  "sample_args = \<lparr>fit = ''ride.fit'', gpx = ''ride.gpx''\<rparr>"

section \<open>Properties of the extractor\<close>

lemma Point_init_iff:
  "(\<exists>p. Point_init d = Inr p) \<longleftrightarrow> set (keys d) = set point_fields"
  by (auto simp: Point_init_def list_all_iff)

lemma Point_init_well_formed:
  "well_formed (Rec d) \<Longrightarrow> Point_init d = Inr (point_of (Rec d))"
  by (auto simp: Point_init_def list_all_iff well_formed_def point_of_def)

lemma Point_init_malformed:
  "\<not> well_formed (Rec d) \<Longrightarrow> Point_init d = Inl TypeError"
  by (auto simp: Point_init_def list_all_iff well_formed_def)

lemma read_loop_filter:
  "read_loop records acc = acc @ map point_of (filter well_formed records)"
proof (induction records acc rule: read_loop.induct)
  case (1 acc)
  show ?case by simp
next
  case (2 records acc)
  then show ?case by (simp add: well_formed_def)
next
  case (3 d records acc)
  show ?case
  proof (cases "well_formed (Rec d)")
    case True
    then show ?thesis
      using 3 by (simp add: Point_init_well_formed)
  next
    case False
    then show ?thesis
      using 3 by (simp add: Point_init_malformed)
  qed
qed

lemma Point_init_values:
  assumes "Point_init d = Inr p" and "f \<in> set point_fields"
  shows "map_of d f = Some (asdict p f)"
proof -
  from assms(1) have all: "list_all (\<lambda>f. f \<in> set (keys d)) point_fields"
    and p: "p = point_of (Rec d)"
    by (auto simp: Point_init_def point_of_def split: if_splits)
  from all assms(2) have "f \<in> fst ` set d"
    by (simp add: list_all_iff keys_def)
  then obtain v where v: "map_of d f = Some v"
    by (cases "map_of d f") (auto simp: map_of_eq_None_iff)
  then have "lookup d f = v" by (simp add: lookup_def)
  moreover from assms(2) have "asdict p f = lookup d f"
    unfolding p by (auto simp: asdict_def point_of_def point_fields_def)
  ultimately show ?thesis using v by simp
qed

lemma wf_A: "well_formed (Rec sample_A)"
  by code_simp

lemma wf_C: "well_formed (Rec sample_C)"
  by code_simp

lemma wf_B: "\<not> well_formed (Rec sample_B)"
  by code_simp

lemma wf_Exc: "\<not> well_formed Exc"
  by (simp add: well_formed_def)

lemma Point_init_A: "Point_init sample_A = Inr (point_of (Rec sample_A))"
  by (rule Point_init_well_formed [OF wf_A])

lemma keys_B: "set (keys sample_B) \<noteq> set point_fields"
  using wf_B by (simp add: well_formed_def)

text \<open>
  For any stream of outcomes, the loop returns the Points of exactly the well-formed
  records of the stream, in their order.
\<close>

lemma read_fit_file_outcomes:
  assumes "FitFile fit_file = Inr records"
  shows "read_fit_file FitFile fit_file = Inr (map point_of (filter well_formed records))"
  using assms by (simp add: read_fit_file_def read_loop_filter)

text \<open>
  What reaches the loop of a container's messages: those before the first one that
  does not decode.
\<close>

lemma get_messages_takeWhile:
  "filter well_formed (get_messages ms) =
     filter well_formed (map (\<lambda>m. case m of Decoded d \<Rightarrow> Rec d | Undecodable \<Rightarrow> Exc)
       (takeWhile (\<lambda>m. m \<noteq> Undecodable) ms))"
proof (induction ms)
  case Nil
  show ?case by simp
next
  case (Cons m ms)
  then show ?case by (cases m) (simp_all add: wf_Exc)
qed

lemma wf_D: "well_formed (Rec sample_D)"
  by code_simp

text \<open>
  Claim C1. A container holds the well-formed record \<open>sample_A\<close>, then a record that
  does not decode, then the well-formed record \<open>sample_D\<close>: two well-formed records
  and one malformed record between them. The generator raises at the second record and
  is finished, so the loop ends at the next \<open>next\<close>: \<open>read_fit_file\<close> returns the one
  Point of \<open>sample_A\<close> and not the two Points of the well-formed records.
\<close>

theorem read_fit_file_loses_records:
  "read_fit_file (\<lambda>f. Inr (get_messages [Decoded sample_A, Undecodable, Decoded sample_D])) ''ride.fit''
     = Inr [point_of (Rec sample_A)]
   \<and> well_formed (Rec sample_A) \<and> well_formed (Rec sample_D)"
  by (simp add: read_fit_file_def read_loop_filter wf_A wf_D wf_Exc)

text \<open>
  Claim C7. The construction of a Point Record from a raw record succeeds if and only
  if the record's field names are exactly the nine attributes. On any mismatch the
  construction raises and the loop goes on without the record; on success the loop
  appends the Point, each of whose attributes is the value the raw record holds under
  that name (nothing is filled in). The Points returned are exactly the successful
  constructions from records of the stream.
\<close>

theorem read_fit_file_strict:
  "((\<exists>p. Point_init d = Inr p) \<longleftrightarrow> set (keys d) = set point_fields)
   \<and> (set (keys d) \<noteq> set point_fields \<longrightarrow>
        Point_init d = Inl TypeError \<and> read_loop (Rec d # records) acc = read_loop records acc)
   \<and> (\<forall>p. Point_init d = Inr p \<longrightarrow>
        read_loop (Rec d # records) acc = read_loop records (acc @ [p])
        \<and> (\<forall>f \<in> set point_fields. map_of d f = Some (asdict p f)))
   \<and> set (read_loop records []) = {p. \<exists>d. Rec d \<in> set records \<and> Point_init d = Inr p}"
proof (intro conjI allI impI ballI)
  show "(\<exists>p. Point_init d = Inr p) \<longleftrightarrow> set (keys d) = set point_fields"
    by (rule Point_init_iff)
next
  assume "set (keys d) \<noteq> set point_fields"
  then have "\<not> well_formed (Rec d)" by (simp add: well_formed_def)
  then show "Point_init d = Inl TypeError" by (rule Point_init_malformed)
  then show "read_loop (Rec d # records) acc = read_loop records acc" by simp
next
  fix p assume "Point_init d = Inr p"
  then show "read_loop (Rec d # records) acc = read_loop records (acc @ [p])" by simp
next
  fix p f assume "Point_init d = Inr p" "f \<in> set point_fields"
  then show "map_of d f = Some (asdict p f)" by (rule Point_init_values)
next
  have "set (map point_of (filter well_formed records))
      = {p. \<exists>d. Rec d \<in> set records \<and> Point_init d = Inr p}"
  proof (intro set_eqI iffI)
    fix p assume "p \<in> set (map point_of (filter well_formed records))"
    then obtain ev where ev: "ev \<in> set records" "well_formed ev" "p = point_of ev" by auto
    from ev(2) obtain d where d: "ev = Rec d" by (cases ev) (auto simp: well_formed_def)
    with ev have "Point_init d = Inr p" by (simp add: Point_init_well_formed)
    with ev d show "p \<in> {p. \<exists>d. Rec d \<in> set records \<and> Point_init d = Inr p}" by auto
  next
    fix p assume "p \<in> {p. \<exists>d. Rec d \<in> set records \<and> Point_init d = Inr p}"
    then obtain d where d: "Rec d \<in> set records" "Point_init d = Inr p" by auto
    then have wf: "well_formed (Rec d)"
      using Point_init_malformed [of d] by (cases "well_formed (Rec d)") auto
    with d have "p = point_of (Rec d)" by (simp add: Point_init_well_formed)
    with d wf show "p \<in> set (map point_of (filter well_formed records))" by auto
  qed
  then show "set (read_loop records []) = {p. \<exists>d. Rec d \<in> set records \<and> Point_init d = Inr p}"
    by (simp add: read_loop_filter)
qed

theorem read_fit_file_strict_witness:
  "Point_init sample_B = Inl TypeError
   \<and> read_loop [Rec sample_B, Rec sample_A] [] = [point_of (Rec sample_A)]
   \<and> map_of sample_A ''position_lat'' = Some (position_lat (point_of (Rec sample_A)))"
proof -
  have 1: "Point_init sample_B = Inl TypeError
      \<and> read_loop (Rec sample_B # [Rec sample_A]) [] = read_loop [Rec sample_A] []"
    using read_fit_file_strict [of sample_B "[Rec sample_A]" "[]"] keys_B by blast
  have 2: "read_loop (Rec sample_A # []) [] = read_loop [] ([] @ [point_of (Rec sample_A)])
      \<and> (\<forall>f \<in> set point_fields. map_of sample_A f = Some (asdict (point_of (Rec sample_A)) f))"
    using read_fit_file_strict [of sample_A "[]" "[]"] Point_init_A by blast
  then have "map_of sample_A ''position_lat'' = Some (asdict (point_of (Rec sample_A)) ''position_lat'')"
    by (simp add: point_fields_def)
  with 1 2 show ?thesis by (simp add: asdict_def)
qed

section \<open>Properties of the serializer\<close>

lemma pd_Timestamp_id: "datetime_or_null v \<Longrightarrow> pd_Timestamp parse v = Inr v"
  by (cases v) (simp_all add: datetime_or_null_def pd_Timestamp_def)

lemma add_points_normalized:
  "list_all (\<lambda>r. datetime_or_null (r ''timestamp'')) rs \<Longrightarrow>
   add_points parse rs seg = Inr (seg\<lparr>points := points seg @ map track_point rs\<rparr>)"
  by (induction rs arbitrary: seg) (simp_all add: pd_Timestamp_id track_point_def)

lemma add_points_length:
  "add_points parse rs seg = Inr seg' \<Longrightarrow> length (points seg') = length (points seg) + length rs"
proof (induction rs arbitrary: seg)
  case Nil
  then show ?case by simp
next
  case (Cons r rs)
  then show ?case by (auto split: sum.splits)
qed

lemma complete_row_eq:
  "complete_row = (\<lambda>r. r ''latitude'' \<noteq> PNone \<and> r ''longitude'' \<noteq> PNone \<and> r ''timestamp'' \<noteq> PNone)"
  by (simp add: fun_eq_iff complete_row_def)

lemma dropna_complete:
  "dropna df [''latitude'', ''longitude'', ''timestamp''] = Inr d \<Longrightarrow>
   rows d = filter complete_row (rows df)"
  by (auto simp: dropna_def complete_row_eq isna_def split: if_splits)

lemma dropna_normalized:
  "normalized df \<Longrightarrow>
   dropna df [''latitude'', ''longitude'', ''timestamp''] = Inr (df\<lparr>rows := filter complete_row (rows df)\<rparr>)"
  by (auto simp: dropna_def normalized_def complete_row_eq isna_def)

lemma concat_contribution: "concat (map contribution rs) = map track_point (filter complete_row rs)"
  by (induction rs) (simp_all add: contribution_def)

lemma pdf_to_gpx_normalized:
  assumes "normalized df"
  shows "pdf_to_gpx parse df =
    Inr \<lparr>tracks = [\<lparr>segments = [\<lparr>points = map track_point (filter complete_row (rows df))\<rparr>]\<rparr>]\<rparr>"
proof -
  have "list_all (\<lambda>r. datetime_or_null (r ''timestamp'')) (filter complete_row (rows df))"
    using assms by (simp add: normalized_def list_all_iff)
  then show ?thesis
    using assms by (simp add: pdf_to_gpx_def copy_def dropna_normalized add_points_normalized)
qed

lemma pdf_to_gpx_structure:
  assumes "pdf_to_gpx parse df = Inr doc"
  shows "\<exists>seg. tracks doc = [\<lparr>segments = [seg]\<rparr>]
    \<and> length (points seg) = length (filter complete_row (rows df))"
proof -
  from assms obtain d seg where d: "dropna df [''latitude'', ''longitude'', ''timestamp''] = Inr d"
    and seg: "add_points parse (rows d) \<lparr>points = []\<rparr> = Inr seg"
    and doc: "doc = \<lparr>tracks = [\<lparr>segments = [seg]\<rparr>]\<rparr>"
    by (auto simp: pdf_to_gpx_def copy_def split: sum.splits)
  from add_points_length [OF seg] dropna_complete [OF d]
  have "length (points seg) = length (filter complete_row (rows df))" by simp
  with doc show ?thesis by simp
qed

lemma normalized_sample: "normalized sample_table"
  by (simp add: normalized_def sample_table_def point_fields_def datetime_or_null_def)

text \<open>
  Claim C3. For a Normalized Table the serializer returns a document whose points are
  the contributions of the rows, in table order: a row with a missing latitude,
  longitude or timestamp contributes no point, and every other row contributes exactly
  the one point of its latitude, longitude and timestamp.
\<close>

theorem pdf_to_gpx_filters_rows:
  assumes "normalized df"
  shows "\<exists>doc. pdf_to_gpx parse df = Inr doc
    \<and> all_points doc = concat (map contribution (rows df))
    \<and> all_points doc = map track_point (filter complete_row (rows df))"
  using pdf_to_gpx_normalized [OF assms, of parse]
  by (simp add: all_points_def concat_contribution)

lemma sample_table_points:
  "map track_point (filter complete_row (rows sample_table)) =
     [\<lparr>latitude = PFloat 45, longitude = PFloat (- 90), time = PDatetime 1000\<rparr>,
      \<lparr>latitude = PFloat 47, longitude = PFloat (- 93), time = PDatetime 1003\<rparr>]"
  by (simp add: sample_table_def complete_row_def track_point_def)

theorem pdf_to_gpx_filters_rows_witness:
  "\<exists>doc. pdf_to_gpx (\<lambda>v. None) sample_table = Inr doc
    \<and> all_points doc =
        [\<lparr>latitude = PFloat 45, longitude = PFloat (- 90), time = PDatetime 1000\<rparr>,
         \<lparr>latitude = PFloat 47, longitude = PFloat (- 93), time = PDatetime 1003\<rparr>]"
proof -
  from pdf_to_gpx_filters_rows [OF normalized_sample, of "\<lambda>v. None"]
  obtain doc where "pdf_to_gpx (\<lambda>v. None) sample_table = Inr doc"
    and "all_points doc = map track_point (filter complete_row (rows sample_table))"
    by blast
  then show ?thesis by (simp add: sample_table_points)
qed

text \<open>
  Claim C5. \<open>pdf_to_gpx\<close> returns a document for every Normalized Table, and every
  document it returns, for any table, has exactly one track with exactly one segment,
  whose number of points is the number of rows that survive the filter (none, some or
  all of the rows).
\<close>

theorem pdf_to_gpx_one_track_one_segment:
  "(normalized df \<longrightarrow> (\<exists>doc. pdf_to_gpx parse df = Inr doc))
   \<and> (\<forall>doc. pdf_to_gpx parse df = Inr doc \<longrightarrow>
        (\<exists>seg. tracks doc = [\<lparr>segments = [seg]\<rparr>]
           \<and> length (points seg) = length (filter complete_row (rows df))))"
  using pdf_to_gpx_normalized [of df parse] pdf_to_gpx_structure [of parse df]
  by blast

theorem pdf_to_gpx_one_track_one_segment_witness:
  "\<exists>doc seg. pdf_to_gpx (\<lambda>v. None) sample_table = Inr doc
     \<and> tracks doc = [\<lparr>segments = [seg]\<rparr>] \<and> length (points seg) = 2"
proof -
  from pdf_to_gpx_one_track_one_segment [of sample_table "\<lambda>v. None"] normalized_sample
  obtain doc where doc: "pdf_to_gpx (\<lambda>v. None) sample_table = Inr doc" by blast
  with pdf_to_gpx_one_track_one_segment [of sample_table "\<lambda>v. None"]
  obtain seg where "tracks doc = [\<lparr>segments = [seg]\<rparr>]"
    and "length (points seg) = length (filter complete_row (rows sample_table))" by blast
  moreover have "length (filter complete_row (rows sample_table)) = 2"
    using arg_cong [OF sample_table_points, of length] by simp
  ultimately show ?thesis using doc by auto
qed

text \<open>
  Claim C10. In the object store, the call of \<open>pdf_to_gpx\<close> leaves the frame it was
  given, and every other frame that existed, as it was (the copy and the filtered frame
  are new objects), while its result is that of \<open>pdf_to_gpx\<close> on the frame's value.
\<close>

theorem pdf_to_gpx_leaves_input:
  assumes "a < length h"
  shows "snd (pdf_to_gpx_heap parse h a) ! a = h ! a
    \<and> take (length h) (snd (pdf_to_gpx_heap parse h a)) = h
    \<and> fst (pdf_to_gpx_heap parse h a) = pdf_to_gpx parse (h ! a)"
  using assms
  by (auto simp: pdf_to_gpx_heap_def heap_copy_def heap_dropna_def pdf_to_gpx_def nth_append
      split: sum.splits prod.splits)

theorem pdf_to_gpx_leaves_input_witness:
  "snd (pdf_to_gpx_heap (\<lambda>v. None) [sample_table] 0) ! 0 = sample_table
   \<and> length (rows (snd (pdf_to_gpx_heap (\<lambda>v. None) [sample_table] 0) ! 0)) = 4
   \<and> (\<exists>doc. fst (pdf_to_gpx_heap (\<lambda>v. None) [sample_table] 0) = Inr doc \<and> length (all_points doc) = 2)"
proof -
  have "snd (pdf_to_gpx_heap (\<lambda>v. None) [sample_table] 0) ! 0 = [sample_table] ! 0"
    and "fst (pdf_to_gpx_heap (\<lambda>v. None) [sample_table] 0) = pdf_to_gpx (\<lambda>v. None) ([sample_table] ! 0)"
    using pdf_to_gpx_leaves_input [of 0 "[sample_table]" "\<lambda>v. None"] by simp_all
  moreover have "length (rows sample_table) = 4" by (simp add: sample_table_def)
  moreover have "pdf_to_gpx (\<lambda>v. None) sample_table =
      Inr \<lparr>tracks = [\<lparr>segments = [\<lparr>points = map track_point (filter complete_row (rows sample_table))\<rparr>]\<rparr>]\<rparr>"
    by (rule pdf_to_gpx_normalized [OF normalized_sample])
  ultimately show ?thesis
    by (simp add: all_points_def sample_table_points)
qed

section \<open>Properties of the double arithmetic\<close>

lemma divisor_value: "semicircles_per_degree = 6405119470038039 / 536870912"
  by code_simp

lemma divisor_nonzero: "semicircles_per_degree \<noteq> 0"
  by (simp add: divisor_value)

lemma round_half_even_near:
  assumes "\<bar>x - of_int n\<bar> < 1 / 2"
  shows "round_half_even x = n"
proof (cases "of_int n \<le> x")
  case True
  with assms have "of_int n \<le> x" "x < of_int n + 1" by linarith+
  then have f: "\<lfloor>x\<rfloor> = n" by (simp add: floor_unique)
  from True assms have "x - of_int n < 1 / 2" by linarith
  with f show ?thesis by (simp add: round_half_even_def)
next
  case False
  have n1: "(of_int (n - 1) :: rat) = of_int n - 1" by simp
  from False assms have "of_int (n - 1) \<le> x" "x < of_int (n - 1) + 1"
    unfolding n1 by linarith+
  then have f: "\<lfloor>x\<rfloor> = n - 1" by (rule floor_unique)
  from False assms have "1 / 2 < x - of_int (n - 1)"
    unfolding n1 by linarith
  with f show ?thesis by (simp add: round_half_even_def Let_def)
qed

lemma two_powi_int: "0 \<le> b \<Longrightarrow> (2::rat) powi b = of_int (2 ^ nat b)"
  by (simp add: power_int_nonneg_exp)

lemma two_powi_less: "(2::rat) powi a < 2 powi b \<Longrightarrow> a < b"
proof (rule ccontr)
  assume less: "(2::rat) powi a < 2 powi b" and "\<not> a < b"
  then have "b \<le> a" by simp
  then have "(2::rat) powi b \<le> 2 powi a" by (rule power_int_increasing) simp
  with less show False by simp
qed

lemma binade_bounds:
  assumes "x \<noteq> 0"
  shows "2 powi binade x \<le> \<bar>x\<bar> \<and> \<bar>x\<bar> < 2 powi (binade x + 1)"
proof -
  obtain p q where pq: "quotient_of \<bar>x\<bar> = (p, q)" by (cases "quotient_of \<bar>x\<bar>")
  then have q: "0 < q" and x: "\<bar>x\<bar> = of_int p / of_int q"
    by (simp_all add: quotient_of_denom_pos quotient_of_div)
  from assms have "0 < \<bar>x\<bar>" by simp
  with x q have p: "0 < p" by (simp add: zero_less_divide_iff)
  define k where "k = bitlen p - bitlen q"
  have bp: "1 \<le> bitlen p" and bq: "1 \<le> bitlen q"
    using p q by (simp_all add: bitlen_alt_def)
  have p1: "(2::rat) powi (bitlen p - 1) \<le> of_int p"
  proof -
    from bitlen_bounds [OF p] have "2 ^ nat (bitlen p - 1) \<le> p" by simp
    then have "(of_int (2 ^ nat (bitlen p - 1)) :: rat) \<le> of_int p" by (simp only: of_int_le_iff)
    then show ?thesis using bp by (simp add: two_powi_int)
  qed
  have p2: "of_int p < (2::rat) powi bitlen p"
  proof -
    from bitlen_bounds [OF p] have "p < 2 ^ nat (bitlen p)" by simp
    then have "(of_int p :: rat) < of_int (2 ^ nat (bitlen p))" by (simp only: of_int_less_iff)
    then show ?thesis using bp by (simp add: two_powi_int)
  qed
  have q1: "(2::rat) powi (bitlen q - 1) \<le> of_int q"
  proof -
    from bitlen_bounds [OF q] have "2 ^ nat (bitlen q - 1) \<le> q" by simp
    then have "(of_int (2 ^ nat (bitlen q - 1)) :: rat) \<le> of_int q" by (simp only: of_int_le_iff)
    then show ?thesis using bq by (simp add: two_powi_int)
  qed
  have q2: "of_int q < (2::rat) powi bitlen q"
  proof -
    from bitlen_bounds [OF q] have "q < 2 ^ nat (bitlen q)" by simp
    then have "(of_int q :: rat) < of_int (2 ^ nat (bitlen q))" by (simp only: of_int_less_iff)
    then show ?thesis using bq by (simp add: two_powi_int)
  qed
  have qpos: "(0::rat) < of_int q" and ppos: "(0::rat) < of_int p" using p q by simp_all
  have upper: "\<bar>x\<bar> < 2 powi (k + 1)"
  proof -
    have "of_int p * (2::rat) powi (bitlen q - 1) < 2 powi bitlen p * of_int q"
      using p2 q1 ppos by (intro mult_less_le_imp_less) simp_all
    then have "of_int p / of_int q < (2::rat) powi bitlen p / 2 powi (bitlen q - 1)"
      using qpos by (simp add: field_simps)
    also have "(2::rat) powi bitlen p / 2 powi (bitlen q - 1) = 2 powi (bitlen p - (bitlen q - 1))"
      by (simp add: power_int_diff)
    also have "bitlen p - (bitlen q - 1) = k + 1" by (simp add: k_def)
    finally show ?thesis by (simp add: x)
  qed
  have lower: "2 powi (k - 1) \<le> \<bar>x\<bar>"
  proof -
    have "(2::rat) powi (bitlen p - 1) * of_int q \<le> of_int p * 2 powi bitlen q"
      using p1 q2 p q by (intro mult_mono) simp_all
    then have "(2::rat) powi (bitlen p - 1) / 2 powi bitlen q \<le> of_int p / of_int q"
      using qpos by (simp add: field_simps)
    moreover have "(2::rat) powi (bitlen p - 1) / 2 powi bitlen q = 2 powi (bitlen p - 1 - bitlen q)"
      by (simp add: power_int_diff)
    moreover have "bitlen p - 1 - bitlen q = k - 1" by (simp add: k_def)
    ultimately show ?thesis by (simp add: x)
  qed
  have b: "binade x = (if 2 powi k \<le> \<bar>x\<bar> then k else k - 1)"
    by (simp add: binade_def pq k_def Let_def)
  show ?thesis
  proof (cases "2 powi k \<le> \<bar>x\<bar>")
    case True
    with b upper show ?thesis by simp
  next
    case False
    with b lower show ?thesis by simp
  qed
qed

lemma binade_eqI:
  assumes "2 powi e \<le> \<bar>x\<bar>" and "\<bar>x\<bar> < 2 powi (e + 1)"
  shows "binade x = e"
proof -
  have "(0::rat) < 2 powi e" by simp
  with assms(1) have "0 < \<bar>x\<bar>" by linarith
  then have "x \<noteq> 0" by simp
  from binade_bounds [OF this]
  have b1: "2 powi binade x \<le> \<bar>x\<bar>" and b2: "\<bar>x\<bar> < 2 powi (binade x + 1)" by simp_all
  from assms(1) b2 have "(2::rat) powi e < 2 powi (binade x + 1)" by simp
  then have "e < binade x + 1" by (rule two_powi_less)
  moreover from b1 assms(2) have "(2::rat) powi binade x < 2 powi (e + 1)" by simp
  then have "binade x < e + 1" by (rule two_powi_less)
  ultimately show ?thesis by simp
qed

lemma fl_eqI:
  assumes "2 powi e \<le> \<bar>x\<bar>" and "\<bar>x\<bar> < 2 powi (e + 1)" and "- 1022 \<le> e"
    and "\<bar>x - of_int n * 2 powi (e - 52)\<bar> < 2 powi (e - 53)"
  shows "fl x = of_int n * 2 powi (e - 52)"
proof -
  have "(0::rat) < 2 powi e" by simp
  with assms(1) have "0 < \<bar>x\<bar>" by linarith
  then have x: "x \<noteq> 0" by simp
  have b: "binade x = e" using assms(1,2) by (rule binade_eqI)
  define q :: rat where "q = 2 powi (e - 52)"
  have q: "0 < q" by (simp add: q_def)
  have "(2::rat) powi (e - 53) = 2 powi (e - 52 - 1)" by simp
  also have "\<dots> = q / 2" unfolding q_def by (subst power_int_diff) simp_all
  finally have half: "(2::rat) powi (e - 53) = q / 2" .
  have "x / q - of_int n = (x - of_int n * q) / q"
    using q by (simp add: field_simps)
  then have "\<bar>x / q - of_int n\<bar> = \<bar>x - of_int n * q\<bar> / q"
    using q by simp
  also have "\<dots> < (q / 2) / q"
    using assms(4) q unfolding half q_def [symmetric] by (rule divide_strict_right_mono)
  also have "\<dots> = 1 / 2" using q by simp
  finally have "round_half_even (x / q) = n" by (rule round_half_even_near)
  then show ?thesis
    using x b assms(3) by (simp add: fl_def q_def Let_def max_def)
qed

lemma fl_eqI_nat:
  fixes k c :: nat
  assumes lo: "2 ^ k \<le> \<bar>x\<bar> * 2 ^ c" and hi: "\<bar>x\<bar> * 2 ^ c < 2 * 2 ^ k"
    and c: "int c \<le> 1022 + int k"
    and near: "\<bar>x * 2 ^ (c + 53) - of_int n * 2 * 2 ^ k\<bar> < 2 ^ k"
  shows "fl x = of_int n * 2 ^ k / 2 ^ (c + 52)"
proof -
  define e where "e = int k - int c"
  have pw: "(2::rat) powi (int j - int m) = 2 ^ j / 2 ^ m" for j m :: nat
    by (subst power_int_diff) simp_all
  have e0: "(2::rat) powi e = 2 ^ k / 2 ^ c" unfolding e_def by (rule pw)
  have e1: "(2::rat) powi (e + 1) = 2 * 2 ^ k / 2 ^ c"
  proof -
    have "e + 1 = int (Suc k) - int (c)" by (simp add: e_def)
    then have "(2::rat) powi (e + 1) = 2 powi (int (Suc k) - int (c))" by (simp only:)
    also have "\<dots> = 2 ^ (Suc k) / 2 ^ (c)" by (rule pw)
    finally show ?thesis by simp
  qed
  have e52: "(2::rat) powi (e - 52) = 2 ^ k / 2 ^ (c + 52)"
  proof -
    have "e - 52 = int (k) - int (c + 52)" by (simp add: e_def)
    then have "(2::rat) powi (e - 52) = 2 powi (int (k) - int (c + 52))" by (simp only:)
    also have "\<dots> = 2 ^ (k) / 2 ^ (c + 52)" by (rule pw)
    finally show ?thesis by simp
  qed
  have e53: "(2::rat) powi (e - 53) = 2 ^ k / 2 ^ (c + 53)"
  proof -
    have "e - 53 = int (k) - int (c + 53)" by (simp add: e_def)
    then have "(2::rat) powi (e - 53) = 2 powi (int (k) - int (c + 53))" by (simp only:)
    also have "\<dots> = 2 ^ (k) / 2 ^ (c + 53)" by (rule pw)
    finally show ?thesis by simp
  qed
  have 1: "2 powi e \<le> \<bar>x\<bar>"
    unfolding e0 using lo by (simp add: field_simps)
  have 2: "\<bar>x\<bar> < 2 powi (e + 1)"
    unfolding e1 using hi by (simp add: field_simps)
  have 3: "- 1022 \<le> e" using c by (simp add: e_def)
  have "x - of_int n * (2 ^ k / 2 ^ (c + 52)) = (x * 2 ^ (c + 53) - of_int n * 2 * 2 ^ k) / 2 ^ (c + 53)"
    by (simp add: field_simps power_add)
  then have "\<bar>x - of_int n * (2 ^ k / 2 ^ (c + 52))\<bar> = \<bar>x * 2 ^ (c + 53) - of_int n * 2 * 2 ^ k\<bar> / 2 ^ (c + 53)"
    by (simp add: del: power_Suc)
  also have "\<dots> < 2 ^ k / 2 ^ (c + 53)"
    using near by (rule divide_strict_right_mono) simp
  finally have 4: "\<bar>x - of_int n * 2 powi (e - 52)\<bar> < 2 powi (e - 53)"
    unfolding e52 e53 .
  from fl_eqI [OF 1 2 3 4] show ?thesis
    unfolding e52 by simp
qed

lemma ex_binade_int:
  fixes m :: int
  assumes "0 < m"
  shows "\<exists>k::nat. 2 ^ k \<le> m \<and> m < 2 * 2 ^ k"
proof -
  from assms have b: "1 \<le> bitlen m" by (simp add: bitlen_alt_def)
  then have "nat (bitlen m) = Suc (nat (bitlen m - 1))" by simp
  with bitlen_bounds [OF assms] show ?thesis
    by (intro exI [of _ "nat (bitlen m - 1)"]) simp
qed

lemma pow2_mod3: "(2::int) ^ k mod 3 = 1 \<or> (2::int) ^ k mod 3 = 2"
proof (induction k)
  case 0
  show ?case by simp
next
  case (Suc k)
  then show ?case by simp presburger
qed

lemma pow2_not_multiple: "(2::int) ^ k \<noteq> 180 * a"
proof
  assume "(2::int) ^ k = 180 * a"
  then have "(2::int) ^ k mod 3 = 0" by simp
  with pow2_mod3 [of k] show False by simp
qed

lemma fl_of_int_exact:
  assumes "\<bar>s\<bar> \<le> 2 ^ 31"
  shows "fl (of_int s) = of_int s"
proof (cases "s = 0")
  case True
  then show ?thesis by (simp add: fl_def)
next
  case False
  then have "0 < \<bar>s\<bar>" by simp
  from ex_binade_int [OF this] obtain k :: nat
    where k1: "2 ^ k \<le> \<bar>s\<bar>" and k2: "\<bar>s\<bar> < 2 * 2 ^ k" by blast
  from k1 assms have "(2::int) ^ k < 2 ^ 32" by simp
  then have k: "k < 32" by (rule power_less_imp_less_exp [rotated]) simp
  define n where "n = s * 2 ^ (52 - k)"
  have r1: "(2::rat) ^ k \<le> \<bar>of_int s\<bar>"
  proof -
    from k1 have "(of_int (2 ^ k) :: rat) \<le> of_int \<bar>s\<bar>" by (simp only: of_int_le_iff)
    then show ?thesis by simp
  qed
  have r2: "\<bar>of_int s :: rat\<bar> < 2 * 2 ^ k"
  proof -
    from k2 have "(of_int \<bar>s\<bar> :: rat) < of_int (2 * 2 ^ k)" by (simp only: of_int_less_iff)
    then show ?thesis by simp
  qed
  have "(2::rat) ^ (52 - k) * 2 ^ k = 2 ^ 52"
    using k by (simp flip: power_add)
  then have n: "(of_int n :: rat) * 2 ^ k = of_int s * 2 ^ 52"
    by (simp add: n_def mult.assoc)
  have "fl (of_int s) = of_int n * 2 ^ k / 2 ^ (0 + 52)"
  proof (rule fl_eqI_nat)
    show "2 ^ k \<le> \<bar>rat_of_int s\<bar> * 2 ^ 0" using r1 by simp
    show "\<bar>rat_of_int s\<bar> * 2 ^ 0 < 2 * 2 ^ k" using r2 by simp
    show "int 0 \<le> 1022 + int k" by simp
    have "rat_of_int n * 2 * 2 ^ k = 2 * (rat_of_int n * 2 ^ k)" by simp
    also have "\<dots> = 2 * (rat_of_int s * 2 ^ 52)" by (simp only: n)
    also have "\<dots> = rat_of_int s * 2 ^ (0 + 53)" by simp
    finally have "rat_of_int s * 2 ^ (0 + 53) - rat_of_int n * 2 * 2 ^ k = 0" by simp
    then have "\<bar>rat_of_int s * 2 ^ (0 + 53) - rat_of_int n * 2 * 2 ^ k\<bar> = 0" by simp
    also have "(0::rat) < 2 ^ k" by simp
    finally show "\<bar>rat_of_int s * 2 ^ (0 + 53) - rat_of_int n * 2 * 2 ^ k\<bar> < 2 ^ k" .
  qed
  then show ?thesis using n by simp
qed

lemma fl_degrees_exact:
  assumes "\<bar>s\<bar> \<le> 2 ^ 31"
  shows "fl (of_int s / semicircles_per_degree) = of_int s * 180 / 2 ^ 31"
proof (cases "s = 0")
  case True
  then show ?thesis by (simp add: fl_def)
next
  case False
  define S :: rat where "S = of_int s"
  define x :: rat where "x = S * 536870912 / 6405119470038039"
  have x: "of_int s / semicircles_per_degree = x"
    by (simp add: divisor_value x_def S_def)
  from False have "0 < 180 * \<bar>s\<bar>" by simp
  from ex_binade_int [OF this] obtain k :: nat
    where k1: "2 ^ k \<le> 180 * \<bar>s\<bar>" and k2: "180 * \<bar>s\<bar> < 2 * 2 ^ k" by blast
  from k1 assms have "(2::int) ^ k < 2 ^ 39" by simp
  then have k: "k < 39" by (rule power_less_imp_less_exp [rotated]) simp
  from k1 pow2_not_multiple [of k "\<bar>s\<bar>"] have k1': "2 ^ k + 1 \<le> 180 * \<bar>s\<bar>" by simp
  define P :: rat where "P = 2 ^ k"
  have P0: "0 < P" by (simp add: P_def)
  have P38: "P \<le> 2 ^ 38"
    unfolding P_def using k by (intro power_increasing) simp_all
  have r1: "P + 1 \<le> 180 * \<bar>S\<bar>"
  proof -
    from k1' have "(of_int (2 ^ k + 1) :: rat) \<le> of_int (180 * \<bar>s\<bar>)" by (simp only: of_int_le_iff)
    then show ?thesis by (simp add: P_def S_def)
  qed
  have r2: "180 * \<bar>S\<bar> < 2 * P"
  proof -
    from k2 have "(of_int (180 * \<bar>s\<bar>) :: rat) < of_int (2 * 2 ^ k)" by (simp only: of_int_less_iff)
    then show ?thesis by (simp add: P_def S_def)
  qed
  define n where "n = s * 180 * 2 ^ (52 - k)"
  have "(2::rat) ^ (52 - k) * 2 ^ k = 2 ^ 52"
    using k by (simp flip: power_add)
  then have n: "(of_int n :: rat) * P = S * 180 * 2 ^ 52"
    by (simp add: n_def mult.assoc P_def S_def)
  have ax: "\<bar>x\<bar> = \<bar>S\<bar> * 536870912 / 6405119470038039"
    by (simp add: x_def abs_mult)
  have "fl x = of_int n * 2 ^ k / 2 ^ (31 + 52)"
  proof (rule fl_eqI_nat)
    show "2 ^ k \<le> \<bar>x\<bar> * 2 ^ 31"
      unfolding ax P_def [symmetric] using r1 P38 by simp
    show "\<bar>x\<bar> * 2 ^ 31 < 2 * 2 ^ k"
      unfolding ax P_def [symmetric] using r2 P0 by simp
    show "int 31 \<le> 1022 + int k" by simp
    have "x * 2 ^ (31 + 53) - of_int n * 2 * 2 ^ k = x * 2 ^ 84 - 2 * (of_int n * P)"
      by (simp add: P_def)
    also have "\<dots> = S * (- 396316767208603648 / 6405119470038039)"
      unfolding n x_def by simp
    finally have "\<bar>x * 2 ^ (31 + 53) - of_int n * 2 * 2 ^ k\<bar> = \<bar>S\<bar> * (396316767208603648 / 6405119470038039)"
      by (simp add: abs_mult)
    also have "\<dots> < P" using r2 P0 by simp
    finally show "\<bar>x * 2 ^ (31 + 53) - of_int n * 2 * 2 ^ k\<bar> < 2 ^ k"
      by (simp add: P_def)
  qed
  also have "\<dots> = S * 180 * 2 ^ 52 / 2 ^ 83"
    using n by (simp add: P_def)
  also have "\<dots> = S * 180 / 2 ^ 31" by simp
  finally show ?thesis by (simp add: x S_def)
qed

lemma int_to_float_exact:
  assumes "\<bar>s\<bar> \<le> 2 ^ 31"
  shows "int_to_float s = Inr (of_int s)"
proof -
  have "\<bar>of_int s :: rat\<bar> = of_int \<bar>s\<bar>" by simp
  also from assms have "(of_int \<bar>s\<bar> :: rat) \<le> of_int (2 ^ 31)" by (simp only: of_int_le_iff)
  also have "(of_int (2 ^ 31) :: rat) \<le> max_double" by (simp add: max_double_def)
  finally have "\<not> max_double < \<bar>of_int s :: rat\<bar>" by simp
  then show ?thesis by (simp add: int_to_float_def fl_of_int_exact [OF assms])
qed

lemma float_truediv_exact:
  assumes "\<bar>s\<bar> \<le> 2 ^ 31"
  shows "float_truediv (PInt s) semicircles_per_degree = Inr (PFloat (of_int s * 180 / 2 ^ 31))"
  using divisor_nonzero
  by (simp add: int_to_float_exact [OF assms] fl_degrees_exact [OF assms])

text \<open>
  Claim C2. For every integer \<open>s\<close> from \<open>-2^31\<close> to \<open>2^31\<close>, the double that
  \<open>semicircle_to_degrees(s)\<close> computes is exactly \<open>s * 180 / 2^31\<close>: the two roundings
  of the computation (of the divisor and of the quotient) leave no error. In particular
  the results for \<open>2^31\<close>, \<open>0\<close> and \<open>-2^31\<close> are \<open>180.0\<close>, \<open>0.0\<close> and \<open>-180.0\<close>.
\<close>

theorem semicircle_to_degrees_formula:
  "(- (2 ^ 31) \<le> s \<and> s \<le> 2 ^ 31 \<longrightarrow>
      semicircle_to_degrees (Scalar (PInt s)) = Inr (Scalar (PFloat (of_int s * 180 / 2 ^ 31))))
   \<and> semicircle_to_degrees (Scalar (PInt (2 ^ 31))) = Inr (Scalar (PFloat 180))
   \<and> semicircle_to_degrees (Scalar (PInt 0)) = Inr (Scalar (PFloat 0))
   \<and> semicircle_to_degrees (Scalar (PInt (- (2 ^ 31)))) = Inr (Scalar (PFloat (- 180)))"
proof -
  have gen: "semicircle_to_degrees (Scalar (PInt s)) = Inr (Scalar (PFloat (of_int s * 180 / 2 ^ 31)))"
    if "\<bar>s\<bar> \<le> 2 ^ 31" for s :: int
    using float_truediv_exact [OF that] by (simp add: semicircle_to_degrees_def)
  have "\<bar>s\<bar> \<le> 2 ^ 31" if "- (2 ^ 31) \<le> s \<and> s \<le> 2 ^ 31"
    using that by (simp add: abs_le_iff)
  moreover have "semicircle_to_degrees (Scalar (PInt (2 ^ 31))) = Inr (Scalar (PFloat 180))"
    using gen [of "2 ^ 31"] by simp
  moreover have "semicircle_to_degrees (Scalar (PInt 0)) = Inr (Scalar (PFloat 0))"
    using gen [of 0] by simp
  moreover have "semicircle_to_degrees (Scalar (PInt (- (2 ^ 31)))) = Inr (Scalar (PFloat (- 180)))"
    using gen [of "- (2 ^ 31)"] by simp
  ultimately show ?thesis using gen by blast
qed

theorem semicircle_to_degrees_formula_witness:
  "semicircle_to_degrees (Scalar (PInt 536870912)) = Inr (Scalar (PFloat 45))
   \<and> semicircle_to_degrees (Scalar (PInt (- 1))) = Inr (Scalar (PFloat (- 45 / 536870912)))"
  using semicircle_to_degrees_formula [of 536870912] semicircle_to_degrees_formula [of "- 1"]
  by simp

section \<open>Properties of the normalizer\<close>

lemma cell_truediv:
  assumes "numeric_or_null v"
  shows "(if v = PNone then Inr PNone else float_truediv v semicircles_per_degree) = Inr (degrees v)"
  using assms divisor_nonzero
  by (cases v) (simp_all add: numeric_or_null_def degrees_def int_to_float_def)

lemma series_truediv_degrees:
  assumes "list_all numeric_or_null vs"
  shows "series_truediv vs semicircles_per_degree = Inr (map degrees vs)"
  using assms
proof (induction vs)
  case Nil
  show ?case by simp
next
  case (Cons v vs)
  then have "(if v = PNone then Inr PNone else float_truediv v semicircles_per_degree) = Inr (degrees v)"
    by (simp add: cell_truediv)
  with Cons show ?case by simp
qed

lemma semicircle_to_degrees_Series:
  "list_all numeric_or_null vs \<Longrightarrow> semicircle_to_degrees (Series vs) = Inr (Series (map degrees vs))"
  by (simp add: semicircle_to_degrees_def series_truediv_degrees)

lemma to_datetime_coerced:
  "\<not> mixes_timezones vals \<Longrightarrow>
   to_datetime coerce vals = Inr (map (coerced coerce vals) [0..<length vals])"
  by (simp add: to_datetime_def)

lemma asdict_timestamp: "asdict p ''timestamp'' = timestamp p"
  and asdict_position_lat: "asdict p ''position_lat'' = position_lat p"
  and asdict_position_long: "asdict p ''position_long'' = position_long p"
  by (simp_all add: asdict_def)

lemma length_maybe_convert_objects: "length (maybe_convert_objects vals) = length vals"
  by (simp add: maybe_convert_objects_def)

lemma length_column: "length (column ps c) = length ps"
  by (simp add: column_def length_maybe_convert_objects)

lemma column_upt: "map (\<lambda>i. column ps c ! i) [0..<length ps] = column ps c"
  using map_nth [of "column ps c"] by (simp add: length_column)

lemma degrees_to_float64: "degrees (to_float64 v) = degrees v"
  by (cases v) (simp_all add: degrees_def to_float64_def)

lemma maybe_convert_objects_nth:
  "i < length vals \<Longrightarrow>
   maybe_convert_objects vals ! i = vals ! i \<or> maybe_convert_objects vals ! i = to_float64 (vals ! i)"
  by (simp add: maybe_convert_objects_def)

lemma degrees_column:
  assumes "i < length ps"
  shows "degrees (column ps c ! i) = degrees (asdict (ps ! i) c)"
  using maybe_convert_objects_nth [of i "map (\<lambda>p. asdict p c) ps"] assms
  by (auto simp: column_def degrees_to_float64)

lemma numeric_or_null_to_float64: "numeric_or_null v \<Longrightarrow> numeric_or_null (to_float64 v)"
  by (cases v) (simp_all add: numeric_or_null_def to_float64_def)

lemma numeric_or_null_column:
  assumes "list_all (\<lambda>p. numeric_or_null (asdict p c)) ps"
  shows "list_all numeric_or_null (column ps c)"
  using assms
  by (auto simp: column_def maybe_convert_objects_def list_all_iff numeric_or_null_to_float64)

lemma to_float64_naive: "is_naive (to_float64 v) = is_naive v"
  and to_float64_aware: "is_aware (to_float64 v) = is_aware v"
  by (cases v; simp add: to_float64_def is_naive_def is_aware_def)+

lemma mixes_timezones_convert:
  "mixes_timezones (maybe_convert_objects vals) = mixes_timezones vals"
  by (simp add: maybe_convert_objects_def mixes_timezones_def list_ex_iff
      to_float64_naive to_float64_aware)

lemma mixes_timezones_column:
  "mixes_timezones (column ps ''timestamp'') = mixes_timezones (map timestamp ps)"
  by (simp add: column_def mixes_timezones_convert asdict_timestamp)

lemma pd_DataFrame_nonempty:
  "ps \<noteq> [] \<Longrightarrow>
   pd_DataFrame ps =
     \<lparr>columns = point_fields, rows = map (\<lambda>i. (\<lambda>c. column ps c ! i)) [0..<length ps]\<rparr>"
  by (auto simp: pd_DataFrame_def split: list.splits)

lemma setitem_Series_upt:
  "setitem \<lparr>columns = cs, rows = map f [0..<n]\<rparr> c (Series (map g [0..<n])) =
     \<lparr>columns = (if c \<in> set cs then cs else cs @ [c]), rows = map (\<lambda>i. (f i)(c := g i)) [0..<n]\<rparr>"
  by (simp add: zip_map_map zip_same_conv_map)

lemma points_to_pdf_rows:
  assumes "ps \<noteq> []" and "list_all positioned ps" and "\<not> mixes_timezones (map timestamp ps)"
  shows "points_to_pdf coerce ps =
    Inr \<lparr>columns = point_fields @ [''latitude'', ''longitude''],
         rows = map (normalized_row coerce ps) [0..<length ps]\<rparr>"
proof -
  let ?n = "length ps"
  let ?ts = "\<lambda>i. coerced coerce (column ps ''timestamp'') i"
  let ?df0 = "\<lparr>columns = point_fields, rows = map (\<lambda>i. (\<lambda>c. column ps c ! i)) [0..<?n]\<rparr>"
  let ?df1 = "\<lparr>columns = point_fields,
      rows = map (\<lambda>i. (\<lambda>c. column ps c ! i)(''timestamp'' := ?ts i)) [0..<?n]\<rparr>"
  let ?df2 = "\<lparr>columns = point_fields @ [''latitude''],
      rows = map (\<lambda>i. (\<lambda>c. column ps c ! i)(''timestamp'' := ?ts i,
          ''latitude'' := degrees (position_lat (ps ! i)))) [0..<?n]\<rparr>"
  have df0: "pd_DataFrame ps = ?df0"
    using assms(1) by (rule pd_DataFrame_nonempty)
  have ts: "getitem ?df0 ''timestamp'' = Inr (column ps ''timestamp'')"
    by (simp add: getitem_def point_fields_def comp_def column_upt)
  have td: "to_datetime coerce (column ps ''timestamp'') = Inr (map ?ts [0..<?n])"
    using assms(3) by (simp add: to_datetime_coerced mixes_timezones_column length_column)
  have df1: "setitem ?df0 ''timestamp'' (Series (map ?ts [0..<?n])) = ?df1"
    by (simp add: setitem_Series_upt point_fields_def del: setitem.simps)
  have lat: "getitem ?df1 ''position_lat'' = Inr (column ps ''position_lat'')"
    by (simp add: getitem_def point_fields_def comp_def column_upt)
  have "list_all (\<lambda>p. numeric_or_null (asdict p ''position_lat'')) ps"
    using assms(2) by (simp add: asdict_position_lat list_all_iff positioned_def)
  then have nlat: "list_all numeric_or_null (column ps ''position_lat'')"
    by (rule numeric_or_null_column)
  have "list_all (\<lambda>p. numeric_or_null (asdict p ''position_long'')) ps"
    using assms(2) by (simp add: asdict_position_long list_all_iff positioned_def)
  then have nlong: "list_all numeric_or_null (column ps ''position_long'')"
    by (rule numeric_or_null_column)
  have dlat: "map degrees (column ps ''position_lat'') =
      map (\<lambda>i. degrees (position_lat (ps ! i))) [0..<?n]"
    by (rule nth_equalityI) (simp_all add: length_column degrees_column asdict_position_lat)
  have dlong: "map degrees (column ps ''position_long'') =
      map (\<lambda>i. degrees (position_long (ps ! i))) [0..<?n]"
    by (rule nth_equalityI) (simp_all add: length_column degrees_column asdict_position_long)
  have sd1: "semicircle_to_degrees (Series (column ps ''position_lat'')) =
      Inr (Series (map (\<lambda>i. degrees (position_lat (ps ! i))) [0..<?n]))"
    using semicircle_to_degrees_Series [OF nlat] by (simp only: dlat)
  have sd2: "semicircle_to_degrees (Series (column ps ''position_long'')) =
      Inr (Series (map (\<lambda>i. degrees (position_long (ps ! i))) [0..<?n]))"
    using semicircle_to_degrees_Series [OF nlong] by (simp only: dlong)
  have df2: "setitem ?df1 ''latitude'' (Series (map (\<lambda>i. degrees (position_lat (ps ! i))) [0..<?n])) = ?df2"
    by (simp add: setitem_Series_upt point_fields_def del: setitem.simps)
  have long: "getitem ?df2 ''position_long'' = Inr (column ps ''position_long'')"
    by (simp add: getitem_def point_fields_def comp_def column_upt)
  have df3: "setitem ?df2 ''longitude'' (Series (map (\<lambda>i. degrees (position_long (ps ! i))) [0..<?n])) =
      \<lparr>columns = point_fields @ [''latitude'', ''longitude''],
       rows = map (normalized_row coerce ps) [0..<?n]\<rparr>"
    by (simp add: setitem_Series_upt point_fields_def normalized_row_def del: setitem.simps)
  show ?thesis
    by (simp only: points_to_pdf_def Let_def df0 ts td df1 lat sd1 df2 long sd2 df3 sum.case)
qed



lemma normalized_row_timestamp:
  "normalized_row coerce ps i ''timestamp'' = coerced coerce (column ps ''timestamp'') i"
  by (simp add: normalized_row_def)

lemma normalized_row_latitude:
  "normalized_row coerce ps i ''latitude'' = degrees (position_lat (ps ! i))"
  by (simp add: normalized_row_def)

lemma normalized_row_longitude:
  "normalized_row coerce ps i ''longitude'' = degrees (position_long (ps ! i))"
  by (simp add: normalized_row_def)

lemma datetime_or_null_coerced: "datetime_or_null (coerced coerce vals i)"
  by (simp add: coerced_def datetime_or_null_def split: option.splits)

lemma normalized_rows:
  "normalized \<lparr>columns = point_fields @ [''latitude'', ''longitude''],
               rows = map (normalized_row coerce ps) [0..<length ps]\<rparr>"
  by (simp add: normalized_def point_fields_def list_all_iff normalized_row_timestamp
      datetime_or_null_coerced)

lemma degrees_null: "numeric_or_null v \<Longrightarrow> degrees v = PNone \<longleftrightarrow> v = PNone"
  by (cases v) (simp_all add: degrees_def numeric_or_null_def)

lemma points_to_pdf_empty_KeyError: "points_to_pdf coerce [] = Inl KeyError"
  by (simp add: points_to_pdf_def pd_DataFrame_def getitem_def)


lemma positioned_A: "positioned (point_of (Rec sample_A))"
  by code_simp

lemma positioned_C: "positioned (point_of (Rec sample_C))"
  by code_simp


lemma timestamps_AC:
  "column [point_of (Rec sample_A), point_of (Rec sample_C)] ''timestamp''
     = [PDatetime 1000, PStr ''garbage'']"
  by code_simp


lemma no_mix_AC:
  "\<not> mixes_timezones (map timestamp [point_of (Rec sample_A), point_of (Rec sample_C)])"
  by code_simp




text \<open>
  Claim C6. For the empty sequence of Point Records the normalizer raises \<open>KeyError\<close>
  instead of returning a table without rows.
\<close>

theorem points_to_pdf_empty: "points_to_pdf coerce [] = Inl KeyError"
  by (simp add: points_to_pdf_def pd_DataFrame_def getitem_def)

text \<open>
  For a non-empty sequence of Point Records with numeric or missing positions and
  without a mix of naive and aware timestamps, the normalizer returns a table with one
  row per record, in which a latitude or longitude is missing exactly when the position
  it comes from is missing.
\<close>

lemma points_to_pdf_one_row_per_record:
  assumes "ps \<noteq> []" and "list_all positioned ps" and "\<not> mixes_timezones (map timestamp ps)"
  shows "\<exists>df. points_to_pdf coerce ps = Inr df
     \<and> length (rows df) = length ps
     \<and> (\<forall>i < length ps.
           ((rows df ! i) ''latitude'' = PNone \<longleftrightarrow> position_lat (ps ! i) = PNone)
         \<and> ((rows df ! i) ''longitude'' = PNone \<longleftrightarrow> position_long (ps ! i) = PNone))"
proof -
  let ?df = "\<lparr>columns = point_fields @ [''latitude'', ''longitude''],
              rows = map (normalized_row coerce ps) [0..<length ps]\<rparr>"
  have df: "points_to_pdf coerce ps = Inr ?df"
    using assms by (rule points_to_pdf_rows)
  have "length (rows ?df) = length ps" by simp
  moreover have "\<forall>i < length ps.
           ((rows ?df ! i) ''latitude'' = PNone \<longleftrightarrow> position_lat (ps ! i) = PNone)
         \<and> ((rows ?df ! i) ''longitude'' = PNone \<longleftrightarrow> position_long (ps ! i) = PNone)"
  proof (intro allI impI)
    fix i assume i: "i < length ps"
    with assms(2) have "numeric_or_null (position_lat (ps ! i))" "numeric_or_null (position_long (ps ! i))"
      by (simp_all add: list_all_length positioned_def)
    with i show "((rows ?df ! i) ''latitude'' = PNone \<longleftrightarrow> position_lat (ps ! i) = PNone)
         \<and> ((rows ?df ! i) ''longitude'' = PNone \<longleftrightarrow> position_long (ps ! i) = PNone)"
      by (simp add: normalized_row_latitude normalized_row_longitude degrees_null)
  qed
  ultimately show ?thesis using df by blast
qed


section \<open>Properties of the pipeline\<close>

text \<open>
  Claim C9. When \<open>fitparse.FitFile\<close> raises for the input path, \<open>main\<close> ends with that
  exception and the world is as before: no file has been opened for writing and none
  written.
\<close>

theorem main_container_open_error:
  assumes "containers w (fit args) = Inl e"
  shows "main coerce parse w args = (Inl e, w)"
  using assms by (simp add: main_def read_fit_file_def)

theorem main_container_open_error_witness:
  "main (\<lambda>vs i. None) (\<lambda>v. None)
      \<lparr>containers = (\<lambda>f. Inl FitParseError), writable = (\<lambda>f. True), files = Map.empty\<rparr>
      \<lparr>fit = ''broken.fit'', gpx = ''out.gpx''\<rparr>
   = (Inl FitParseError,
      \<lparr>containers = (\<lambda>f. Inl FitParseError), writable = (\<lambda>f. True), files = Map.empty\<rparr>)"
  using main_container_open_error [of
      "\<lparr>containers = (\<lambda>f. Inl FitParseError), writable = (\<lambda>f. True), files = Map.empty\<rparr>"
      "\<lparr>fit = ''broken.fit'', gpx = ''out.gpx''\<rparr>" FitParseError "\<lambda>vs i. None" "\<lambda>v. None"]
  by simp

text \<open>
  Claim C4. When the container opens and its stream has no well-formed record (in
  particular when it has no record at all), the table is built from the empty list and
  has no \<open>timestamp\<close> column: \<open>main\<close> ends with \<open>KeyError\<close> and writes nothing.
\<close>

theorem main_without_points:
  assumes "containers w (fit args) = Inr records" and "filter well_formed records = []"
  shows "main coerce parse w args = (Inl KeyError, w)"
  using assms
  by (simp add: main_def read_fit_file_def read_loop_filter points_to_pdf_empty_KeyError)

theorem main_without_points_witness:
  "main sample_coerce (\<lambda>v. None) (sample_world []) sample_args = (Inl KeyError, sample_world [])"
  using main_without_points [of "sample_world []" sample_args "[]" sample_coerce "\<lambda>v. None"]
  by (simp add: sample_world_def)

lemma degrees_exact:
  "\<bar>s\<bar> \<le> 2 ^ 31 \<Longrightarrow> degrees (PInt s) = PFloat (of_int s * 180 / 2 ^ 31)"
  by (simp add: degrees_def fl_of_int_exact fl_degrees_exact)

lemma scenario_points:
  "read_fit_file (containers (sample_world [Rec sample_A, Rec sample_B, Rec sample_C])) (fit sample_args)
     = Inr [point_of (Rec sample_A), point_of (Rec sample_C)]"
  by (simp add: read_fit_file_def sample_world_def read_loop_filter wf_A wf_B wf_C)

lemma scenario_timestamp_A:
  "coerced sample_coerce (column [point_of (Rec sample_A), point_of (Rec sample_C)] ''timestamp'') 0
     = PDatetime 1000"
  by (simp add: timestamps_AC coerced_def sample_coerce_def is_aware_def)

lemma scenario_timestamp_C:
  "coerced sample_coerce (column [point_of (Rec sample_A), point_of (Rec sample_C)] ''timestamp'') (Suc 0)
     = PNone"
  by (simp add: timestamps_AC coerced_def sample_coerce_def)

lemma scenario_position_A:
  "degrees (position_lat (point_of (Rec sample_A))) = PFloat 45
   \<and> degrees (position_long (point_of (Rec sample_A))) = PFloat (- 90)"
  by (simp add: point_of_def sample_A_def lookup_def degrees_exact)

lemma scenario_row_A:
  "complete_row (normalized_row sample_coerce [point_of (Rec sample_A), point_of (Rec sample_C)] 0)
   \<and> track_point (normalized_row sample_coerce [point_of (Rec sample_A), point_of (Rec sample_C)] 0)
       = \<lparr>latitude = PFloat 45, longitude = PFloat (- 90), time = PDatetime 1000\<rparr>"
  by (simp add: complete_row_def track_point_def normalized_row_def scenario_timestamp_A
      scenario_position_A)

lemma scenario_row_C:
  "\<not> complete_row (normalized_row sample_coerce [point_of (Rec sample_A), point_of (Rec sample_C)] (Suc 0))"
  by (simp add: complete_row_def normalized_row_def scenario_timestamp_C)

text \<open>
  The scenario of three records: \<open>sample_A\<close> is valid, \<open>sample_B\<close> does not have the
  fields of a Point, and \<open>sample_C\<close> has a timestamp that cannot be interpreted. The
  extractor yields the Points of A and C, the table has their two rows, and the file
  written holds one track with one segment with the one point of A, at 45 degrees
  north and 90 degrees west.
\<close>

theorem main_scenario:
  "main sample_coerce (\<lambda>v. None) (sample_world [Rec sample_A, Rec sample_B, Rec sample_C]) sample_args
     = (Inr (),
        (sample_world [Rec sample_A, Rec sample_B, Rec sample_C])
          \<lparr>files := [''ride.gpx'' \<mapsto>
             \<lparr>tracks = [\<lparr>segments = [\<lparr>points =
                [\<lparr>latitude = PFloat 45, longitude = PFloat (- 90), time = PDatetime 1000\<rparr>]\<rparr>]\<rparr>]\<rparr>]\<rparr>)"
proof -
  let ?ps = "[point_of (Rec sample_A), point_of (Rec sample_C)]"
  let ?df = "\<lparr>columns = point_fields @ [''latitude'', ''longitude''],
              rows = map (normalized_row sample_coerce ?ps) [0..<length ?ps]\<rparr>"
  have ne: "?ps \<noteq> []" by simp
  have pos: "list_all positioned ?ps" by (simp add: positioned_A positioned_C)
  have df: "points_to_pdf sample_coerce ?ps = Inr ?df"
    by (rule points_to_pdf_rows [OF ne pos no_mix_AC])
  have "[0..<length ?ps] = [0, Suc 0]" by (simp add: upt_rec)
  then have rows: "map track_point (filter complete_row (rows ?df))
      = [\<lparr>latitude = PFloat 45, longitude = PFloat (- 90), time = PDatetime 1000\<rparr>]"
    using scenario_row_A scenario_row_C by simp
  have doc: "pdf_to_gpx (\<lambda>v. None) ?df =
      Inr \<lparr>tracks = [\<lparr>segments = [\<lparr>points = map track_point (filter complete_row (rows ?df))\<rparr>]\<rparr>]\<rparr>"
    by (rule pdf_to_gpx_normalized [OF normalized_rows])
  show ?thesis
    unfolding main_def scenario_points
    by (simp only: sum.case df doc rows) (simp add: sample_world_def sample_args_def)
qed

end
